theory Spec2Isabelle
  imports Main "HOL-Library.Sublist"
begin

section \<open>Python strings\<close>

text \<open>
  A Python \<open>str\<close> is a sequence of Unicode code points, and \<open>len\<close> counts code
  points. The bullet marker U+2022 does not fit an 8-bit character, so a string is
  modelled as the list of its code points. \<open>py\<close> embeds an ASCII literal.
\<close>

type_synonym pystr = "nat list"

definition py :: "string \<Rightarrow> pystr" where
  "py s = map of_char s"

definition NL :: nat where
  "NL = 10"

text \<open>\<open>str(n)\<close> for a non-negative integer: its decimal digits.\<close>

fun str_nat :: "nat \<Rightarrow> pystr" where
  "str_nat n = (if n < 10 then [48 + n] else str_nat (n div 10) @ [48 + n mod 10])"

text \<open>
  \<open>s.split(sep)\<close> for a non-empty separator: the pieces between the non-overlapping
  occurrences of \<open>sep\<close>, found from left to right. The result is never empty.
  (Python raises ValueError for an empty separator; every separator of the program is a
  non-empty literal.)
\<close>

function split_str :: "pystr \<Rightarrow> pystr \<Rightarrow> pystr list" where
  "split_str sep [] = [[]]"
| "split_str sep (c # cs) =
     (if prefix sep (c # cs) then [] # split_str sep (drop (length sep - 1) cs)
      else (case split_str sep cs of p # ps \<Rightarrow> (c # p) # ps | [] \<Rightarrow> [[c]]))"
  by pat_completeness auto
termination
  by (relation "measure (\<lambda>(sep, s). length s)") auto

text \<open>\<open>sep.join(xs)\<close>.\<close>

fun join_str :: "pystr \<Rightarrow> pystr list \<Rightarrow> pystr" where
  "join_str sep [] = []"
| "join_str sep [x] = x"
| "join_str sep (x # y # ys) = x @ sep @ join_str sep (y # ys)"

text \<open>
  \<open>str.isspace\<close> on one code point, as \<open>str.strip()\<close> without argument uses it:
  the ASCII controls 9 to 13 and 28 to 31, the space, and the Unicode white space
  beyond ASCII.
\<close>

definition py_isspace :: "nat \<Rightarrow> bool" where
  "py_isspace c \<longleftrightarrow>
     (9 \<le> c \<and> c \<le> 13) \<or> (28 \<le> c \<and> c \<le> 32) \<or> c = 133 \<or> c = 160 \<or> c = 5760 \<or>
     (8192 \<le> c \<and> c \<le> 8202) \<or> c = 8232 \<or> c = 8233 \<or> c = 8239 \<or> c = 8287 \<or> c = 12288"

text \<open>\<open>s.strip(chars)\<close>: drop the leading and the trailing code points that are in \<open>chars\<close>.\<close>

definition strip_chars :: "pystr \<Rightarrow> pystr \<Rightarrow> pystr" where
  "strip_chars chars s =
     rev (dropWhile (\<lambda>c. c \<in> set chars) (rev (dropWhile (\<lambda>c. c \<in> set chars) s)))"

text \<open>\<open>s.strip()\<close>: drop leading and trailing white space.\<close>

definition strip_ws :: "pystr \<Rightarrow> pystr" where
  "strip_ws s = rev (dropWhile py_isspace (rev (dropWhile py_isspace s)))"

text \<open>\<open>s.replace(c, new)\<close> for a pattern \<open>c\<close> of one code point.\<close>

definition replace_char :: "nat \<Rightarrow> pystr \<Rightarrow> pystr \<Rightarrow> pystr" where
  "replace_char c new s = concat (map (\<lambda>x. if x = c then new else [x]) s)"

section \<open>Configuration constants\<close>

definition MAX_SLIDES :: nat where
  "MAX_SLIDES = 10"

definition PROCESSING_CHUNK_SIZE :: nat where
  "PROCESSING_CHUNK_SIZE = 15000"

definition MIN_CONTENT_LENGTH :: nat where
  "MIN_CONTENT_LENGTH = 100"

section \<open>The generation service\<close>

text \<open>
  \<open>model.generate_content(prompt)\<close> followed by \<open>response.text\<close> either raises or
  yields a string. The service is an external collaborator: any function from its own
  state and the prompt to an outcome and a next state.
\<close>

datatype service_result = Raises pystr | Returns pystr

type_synonym 's service = "'s \<Rightarrow> pystr \<Rightarrow> service_result \<times> 's"

text \<open>The service that answers every prompt with the same text.\<close>

definition const_service :: "pystr \<Rightarrow> unit service" where
  "const_service answer st prompt = (Returns answer, st)"

text \<open>The service that fails on every call.\<close>

definition failing_service :: "pystr \<Rightarrow> unit service" where
  "failing_service msg st prompt = (Raises msg, st)"

section \<open>Slide content generation\<close>

text \<open>The f-string of \<open>generate_slide_content\<close>, line by line.\<close>

definition slide_prompt :: "pystr \<Rightarrow> pystr \<Rightarrow> pystr" where
  "slide_prompt pdf_text slide_title = join_str [NL]
     [[],
      py ''        Generate specific content for PowerPoint slide titled: \"'' @ slide_title @ py ''\"'',
      py ''        '',
      py ''        DOCUMENT CONTENT:'',
      py ''        '' @ take PROCESSING_CHUNK_SIZE pdf_text,
      py ''        '',
      py ''        REQUIREMENTS:'',
      py ''        1. Extract 3-5 specific points from the document'',
      py ''        2. Each point must include concrete details'',
      py ''        3. Use only factual information from the document'',
      py ''        4. Format as bullet points with page references like (Page 3)'',
      py ''        5. If no specific content found, use general document themes'',
      py ''        '',
      py ''        EXAMPLE OUTPUT:'',
      py ''        - Revenue increased by 23% in Q3 (Page 5)'',
      py ''        - Customer satisfaction reached 4.8/5 (Page 8)'',
      py ''        - New products launched in September (Page 12)'',
      py ''        '']"

text \<open>The bullet markers \<open>'-'\<close>, U+2022 and \<open>'*'\<close>.\<close>

definition markers :: "pystr list" where
  "markers = [py ''-'', [8226], py ''*'']"

definition empty_placeholder :: pystr where
  "empty_placeholder = join_str [NL]
     [py ''- Key point from document (Page X)'',
      py ''- Important finding (Page Y)'',
      py ''- Relevant detail (Page Z)'']"

definition exception_placeholder :: pystr where
  "exception_placeholder = join_str [NL]
     [py ''- Document point 1 (Page X)'',
      py ''- Document point 2 (Page Y)'',
      py ''- Document point 3 (Page Z)'']"

text \<open>The post-processing under the comment "Ensure we have proper bullet points".\<close>

definition ensure_bullets :: "pystr \<Rightarrow> pystr" where
  "ensure_bullets content =
     (if strip_ws content = [] then empty_placeholder
      else if \<not> list_ex (\<lambda>marker. sublist marker content) markers
        then py ''- '' @ replace_char NL (NL # py ''- '') content
      else content)"

definition generate_slide_content :: "'s service \<Rightarrow> 's \<Rightarrow> pystr \<Rightarrow> pystr \<Rightarrow> pystr \<times> 's" where
  "generate_slide_content model st pdf_text slide_title =
     (case model st (slide_prompt pdf_text slide_title) of
        (Raises e, st') \<Rightarrow> (exception_placeholder, st')
      | (Returns content, st') \<Rightarrow> (ensure_bullets content, st'))"

text \<open>
  What the data model calls a bullet-prefixed line: a line of the content that begins
  with one of the markers.
\<close>

definition bullet_prefixed :: "pystr \<Rightarrow> bool" where
  "bullet_prefixed line = list_ex (\<lambda>marker. prefix marker line) markers"

definition has_bullet_line :: "pystr \<Rightarrow> bool" where
  "has_bullet_line content = list_ex bullet_prefixed (split_str [NL] content)"

section \<open>Text extraction\<close>

text \<open>
  An extraction provider is an external library. One run of it over the document either
  fails on opening, or yields pages; \<open>page.extract_text()\<close> on a page returns a string,
  returns \<open>None\<close>, or raises.
\<close>

datatype page_result = PageText "pystr option" | PageRaises pystr

datatype provider_run = OpenRaises pystr | Opens "page_result list"

datatype event = Seek0 | PlumberOpened | PyPDF2Opened | Warning pystr

definition page_block :: "nat \<Rightarrow> pystr \<Rightarrow> pystr" where
  "page_block i page_text = [NL, NL] @ py ''[Page '' @ str_nat (i + 1) @ py '']'' @ [NL] @ page_text"

text \<open>
  The loop over the pages, from page index \<open>i\<close>, appending to \<open>text\<close>. It returns the
  text and the message of the exception that ended it, if one did.
\<close>

fun extract_pages :: "nat \<Rightarrow> page_result list \<Rightarrow> pystr \<Rightarrow> pystr \<times> pystr option" where
  "extract_pages i [] text = (text, None)"
| "extract_pages i (PageRaises e # pages) text = (text, Some e)"
| "extract_pages i (PageText page_text # pages) text =
     (let text' = (case page_text of
                     None \<Rightarrow> text
                   | Some t \<Rightarrow> if t \<noteq> [] then text @ page_block i t else text)
      in if length text' > PROCESSING_CHUNK_SIZE then (text', None)
         else extract_pages (Suc i) pages text')"

definition run_provider :: "provider_run \<Rightarrow> pystr \<Rightarrow> pystr \<times> pystr option" where
  "run_provider run text =
     (case run of OpenRaises e \<Rightarrow> (text, Some e) | Opens pages \<Rightarrow> extract_pages 0 pages text)"

text \<open>The text a provider accumulates on its own, starting from the empty string.\<close>

definition provider_text :: "provider_run \<Rightarrow> pystr" where
  "provider_text run = fst (run_provider run [])"

definition warn :: "pystr \<Rightarrow> pystr option \<Rightarrow> event list" where
  "warn who exn = (case exn of None \<Rightarrow> [] | Some e \<Rightarrow> [Warning (who @ py '' failed: '' @ e)])"

definition scanned_error :: pystr where
  "scanned_error = py ''Failed to extract sufficient text (document may be scanned)''"

text \<open>
  \<open>extract_text_from_pdf\<close>: the returned pair and the trace of what was done to the
  source and shown to the user.
\<close>

definition extract_text_from_pdf ::
  "provider_run \<Rightarrow> provider_run \<Rightarrow> (pystr option \<times> pystr option) \<times> event list" where
  "extract_text_from_pdf plumber pypdf2 =
     (let (text, exnA) = run_provider plumber [];
          logA = [Seek0, PlumberOpened] @ warn (py ''pdfplumber'') exnA;
          (text, logB) =
            (if length text < MIN_CONTENT_LENGTH
             then (let (text', exnB) = run_provider pypdf2 text
                   in (text', [Seek0, PyPDF2Opened] @ warn (py ''PyPDF2'') exnB))
             else (text, []))
      in (if length text > MIN_CONTENT_LENGTH then (Some text, None)
          else (None, Some scanned_error),
          logA @ logB))"

text \<open>A provider run of one page holding \<open>n\<close> letters \<open>a\<close>.\<close>

definition one_page :: "nat \<Rightarrow> provider_run" where
  "one_page n = Opens [PageText (Some (replicate n 97))]"

section \<open>Outline parsing\<close>

datatype exn = IndexError | LibraryError pystr

text \<open>
  The body of the parsing loop on one line: \<open>Inr None\<close> when the line is skipped,
  \<open>Inr (Some title)\<close> when a title is appended, \<open>Inl IndexError\<close> when
  \<open>parts[0].split(': ')[1]\<close> reads past the end of a one-element list.
\<close>

definition parse_line :: "pystr \<Rightarrow> exn + pystr option" where
  "parse_line line =
     (if prefix (py ''Slide'') line then
        (case split_str (py '' - '') line of
           part0 # _ # _ \<Rightarrow>
             (case split_str (py '': '') part0 of
                _ # seg # _ \<Rightarrow> Inr (Some (strip_chars (py ''[]'') seg))
              | _ \<Rightarrow> Inl IndexError)
         | _ \<Rightarrow> Inr None)
      else Inr None)"

fun parse_lines :: "pystr list \<Rightarrow> pystr list \<Rightarrow> exn + pystr list" where
  "parse_lines [] slides_to_create = Inr slides_to_create"
| "parse_lines (line # lines) slides_to_create =
     (case parse_line line of
        Inl e \<Rightarrow> Inl e
      | Inr None \<Rightarrow> parse_lines lines slides_to_create
      | Inr (Some slide_title) \<Rightarrow> parse_lines lines (slides_to_create @ [slide_title]))"

definition parse_outline :: "pystr \<Rightarrow> exn + pystr list" where
  "parse_outline slide_structure = parse_lines (split_str [NL] slide_structure) []"

text \<open>
  Writing a sequence of titles back in the shape of the outline,
  \<open>Slide <n>: [<title>] - <rest>\<close>, one line per title, numbered from 1; \<open>rest i\<close> is
  the descriptive text put on the line of the title at position \<open>i\<close>.
\<close>

definition outline_line :: "nat \<Rightarrow> pystr \<Rightarrow> pystr \<Rightarrow> pystr" where
  "outline_line n title rest =
     py ''Slide '' @ str_nat n @ py '': ['' @ title @ py ''] - '' @ rest"

definition reserialize :: "(nat \<Rightarrow> pystr) \<Rightarrow> pystr list \<Rightarrow> pystr" where
  "reserialize rest titles =
     join_str [NL] (map (\<lambda>(i, title). outline_line (Suc i) title (rest i)) (enumerate 0 titles))"

text \<open>The descriptive text that is the same on every line.\<close>

definition const_rest :: "pystr \<Rightarrow> nat \<Rightarrow> pystr" where
  "const_rest r i = r"

text \<open>
  The shape of a title that the parser can produce: it holds neither separator and no
  line break, and stripping brackets from its ends leaves it as it is.
\<close>

definition clean_title :: "pystr \<Rightarrow> bool" where
  "clean_title t \<longleftrightarrow>
     \<not> sublist (py '' - '') t \<and> \<not> sublist (py '': '') t \<and> NL \<notin> set t
     \<and> strip_chars (py ''[]'') t = t"

section \<open>Presentation assembly\<close>

text \<open>
  The artifact builder is an external library. The presentation it builds is modelled by
  what the program puts into it: the records hold the strings as the program assigns
  them, and how the library writes them into the file (its encoding of control
  characters) is not part of the model. Assigning \<open>text\<close> to a placeholder makes one
  paragraph per line of the text.
\<close>

datatype align = LEFT

record pptx_paragraph =
  run_text :: pystr
  font_size :: "nat option"
  font_rgb :: "(nat \<times> nat \<times> nat) option"
  alignment :: "align option"

record slide =
  layout :: nat
  title_text :: pystr
  body :: "pptx_paragraph list"

record presentation =
  slide_width :: int
  slide_height :: int
  slides :: "slide list"

definition set_text :: "pystr \<Rightarrow> pptx_paragraph list" where
  "set_text s =
     map (\<lambda>l. \<lparr>run_text = l, font_size = None, font_rgb = None, alignment = None\<rparr>)
       (split_str [NL] s)"

definition format_paragraph :: "pptx_paragraph \<Rightarrow> pptx_paragraph" where
  "format_paragraph p = p\<lparr>font_size := Some 18, font_rgb := Some (0, 0, 0), alignment := Some LEFT\<rparr>"

text \<open>
  Every call into the library may raise. The places where \<open>create_presentation\<close> calls
  it are the steps below (\<open>k\<close> is the position of the plan entry being emitted), and a
  fault assignment says which steps raise, and with what message.
\<close>

datatype step =
  NewPresentation | TitleSlide
  | AddSlide nat | SetTitle nat | SetContent nat | Format nat
  | TempFile | Save

type_synonym faults = "step \<Rightarrow> pystr option"

definition no_faults :: faults where
  "no_faults s = None"

definition fault_at :: "step \<Rightarrow> pystr \<Rightarrow> faults" where
  "fault_at s msg s' = (if s' = s then Some msg else None)"

definition attempt :: "faults \<Rightarrow> step \<Rightarrow> (exn + 'a) \<Rightarrow> exn + 'a" where
  "attempt flt s cont = (case flt s of Some msg \<Rightarrow> Inl (LibraryError msg) | None \<Rightarrow> cont)"

text \<open>
  The loop that creates the content slides, at plan position \<open>k\<close>, over the entries
  that remain. \<open>generate_slide_content\<close> is called before the slide is added, so the
  service is called even when adding the slide then raises.
\<close>

fun content_slides ::
  "'s service \<Rightarrow> faults \<Rightarrow> pystr \<Rightarrow> nat \<Rightarrow> pystr list \<Rightarrow> presentation \<Rightarrow> 's \<Rightarrow> exn + presentation" where
  "content_slides model flt pdf_text k [] prs st = Inr prs"
| "content_slides model flt pdf_text k (slide_title # rest) prs st =
     (if sublist (py ''[Title Slide]'') slide_title
      then content_slides model flt pdf_text (Suc k) rest prs st
      else
        (let (content, st') = generate_slide_content model st pdf_text slide_title
         in attempt flt (AddSlide k) (attempt flt (SetTitle k) (attempt flt (SetContent k)
              (attempt flt (Format k)
                (content_slides model flt pdf_text (Suc k) rest
                   (prs\<lparr>slides := slides prs @
                      [\<lparr>layout = 1,
                        title_text = filter (\<lambda>c. c \<noteq> 93) (filter (\<lambda>c. c \<noteq> 91) slide_title),
                        body = map format_paragraph (set_text content)\<rparr>]\<rparr>)
                   st'))))))"

text \<open>
  The part of \<open>create_presentation\<close> before the file is saved. \<open>Inches(13.333)\<close> and
  \<open>Inches(7.5)\<close> are 12191695 and 6858000 English Metric Units; \<open>now\<close> is the
  formatted time of the call.
\<close>

definition build_presentation ::
  "'s service \<Rightarrow> faults \<Rightarrow> 's \<Rightarrow> pystr \<Rightarrow> pystr \<Rightarrow> pystr \<Rightarrow> pystr \<Rightarrow> exn + presentation" where
  "build_presentation model flt st now ppt_title slide_structure pdf_text =
     attempt flt NewPresentation (attempt flt TitleSlide
       (case parse_outline slide_structure of
          Inl e \<Rightarrow> Inl e
        | Inr slides_to_create \<Rightarrow>
            content_slides model flt pdf_text 0 (take MAX_SLIDES slides_to_create)
              \<lparr>slide_width = 12191695, slide_height = 6858000,
               slides = [\<lparr>layout = 0, title_text = ppt_title,
                          body = set_text (py ''Generated '' @ now)\<rparr>]\<rparr>
              st))"

text \<open>
  The temporary file: absent, created and left as it was when \<open>prs.save\<close> raised
  (\<open>delete=False\<close>), or holding the saved presentation.
\<close>

datatype file_state = NoFile | Leftover | Written presentation

record assembly_result =
  path :: "pystr option"
  temp_file :: file_state
  ui_errors :: "pystr list"

definition exn_str :: "exn \<Rightarrow> pystr" where
  "exn_str e = (case e of IndexError \<Rightarrow> py ''list index out of range'' | LibraryError msg \<Rightarrow> msg)"

definition failed :: "exn \<Rightarrow> file_state \<Rightarrow> assembly_result" where
  "failed e f = \<lparr>path = None, temp_file = f, ui_errors = [py ''PPT creation failed: '' @ exn_str e]\<rparr>"

text \<open>
  \<open>create_presentation\<close>; \<open>tmp_name\<close> is the name the system gives the temporary
  file.
\<close>

definition create_presentation ::
  "'s service \<Rightarrow> faults \<Rightarrow> 's \<Rightarrow> pystr \<Rightarrow> pystr \<Rightarrow> pystr \<Rightarrow> pystr \<Rightarrow> pystr \<Rightarrow> assembly_result" where
  "create_presentation model flt st now tmp_name ppt_title slide_structure pdf_text =
     (case build_presentation model flt st now ppt_title slide_structure pdf_text of
        Inl e \<Rightarrow> failed e NoFile
      | Inr prs \<Rightarrow>
          (case flt TempFile of
             Some msg \<Rightarrow> failed (LibraryError msg) NoFile
           | None \<Rightarrow>
               (case flt Save of
                  Some msg \<Rightarrow> failed (LibraryError msg) Leftover
                | None \<Rightarrow> \<lparr>path = Some tmp_name, temp_file = Written prs, ui_errors = []\<rparr>)))"

text \<open>The slides of the saved presentation; none when nothing was saved.\<close>

definition saved_slides :: "assembly_result \<Rightarrow> slide list" where
  "saved_slides r = (case temp_file r of Written prs \<Rightarrow> slides prs | _ \<Rightarrow> [])"

definition content_slide_count :: "assembly_result \<Rightarrow> nat" where
  "content_slide_count r = length (filter (\<lambda>s. layout s = 1) (saved_slides r))"

text \<open>The plan entries that the loop does not skip, with their positions.\<close>

definition emitted :: "pystr list \<Rightarrow> (nat \<times> pystr) list" where
  "emitted slides_to_create =
     filter (\<lambda>(k, slide_title). \<not> sublist (py ''[Title Slide]'') slide_title)
       (enumerate 0 (take MAX_SLIDES slides_to_create))"

text \<open>The library steps of a run whose plan is \<open>slides_to_create\<close>, in order.\<close>

definition assembly_steps :: "pystr list \<Rightarrow> step list" where
  "assembly_steps slides_to_create =
     [NewPresentation, TitleSlide]
     @ concat (map (\<lambda>(k, slide_title). [AddSlide k, SetTitle k, SetContent k, Format k])
         (emitted slides_to_create))
     @ [TempFile, Save]"

text \<open>The outline in the format that the outline prompt requires, with five entries.\<close>

definition five_entry_outline :: pystr where
  "five_entry_outline = join_str [NL]
     [py ''Slide 1: [Title Slide] - Title: Q3 Report'',
      py ''Slide 2: [Introduction] - Scope'',
      py ''Slide 3: [Key Finding 1] - Revenue (Page 5)'',
      py ''Slide 4: [Key Finding 2] - Costs (Page 8)'',
      py ''Slide 5: [Conclusion] - Next steps'']"

text \<open>An outline whose first line has the separator \<open>" - "\<close> but no \<open>": "\<close> before it.\<close>

definition colonless_outline :: pystr where
  "colonless_outline = join_str [NL]
     [py ''Slide 1 - Overview'',
      py ''Slide 2: [Introduction] - Scope'']"

section \<open>Service configuration\<close>

text \<open>
  A name in the body of a function is looked up among the module's globals (and then the
  builtins, none of which is spelled \<open>GEMINI_API_KEY\<close>). The globals are the names the
  module binds: its imports, its constants and its functions.
\<close>

datatype pyval = StrVal pystr | IntVal int | Object

definition module_globals :: "(string \<times> pyval) list" where
  "module_globals =
     [(''os'', Object), (''load_dotenv'', Object), (''tempfile'', Object), (''st'', Object),
      (''PdfReader'', Object), (''pdfplumber'', Object), (''genai'', Object),
      (''Presentation'', Object), (''Inches'', Object), (''Pt'', Object),
      (''RGBColor'', Object), (''PP_ALIGN'', Object), (''datetime'', Object),
      (''Optional'', Object), (''Tuple'', Object),
      (''MODEL_NAME'', StrVal (py ''gemini-1.5-pro'')),
      (''MAX_PDF_SIZE_MB'', IntVal 50), (''MAX_SLIDES'', IntVal 10),
      (''PROCESSING_CHUNK_SIZE'', IntVal 15000), (''MIN_CONTENT_LENGTH'', IntVal 100),
      (''configure_gemini'', Object), (''extract_text_from_pdf'', Object),
      (''generate_slide_structure'', Object), (''generate_slide_content'', Object),
      (''create_presentation'', Object), (''main'', Object)]"

datatype config_exn = NameError string | ServiceError pystr

definition load_global :: "string \<Rightarrow> config_exn + pyval" where
  "load_global name =
     (case map_of module_globals name of Some v \<Rightarrow> Inr v | None \<Rightarrow> Inl (NameError name))"

text \<open>
  The two calls into the service library; each may raise, depending on the credential it
  is given and on the environment.
\<close>

record genai_lib =
  configure :: "pyval \<Rightarrow> pystr option"
  GenerativeModel :: "pyval \<Rightarrow> pystr option"

datatype gemini_outcome = Configured pyval | Stopped "pystr list"

definition config_exn_str :: "config_exn \<Rightarrow> pystr" where
  "config_exn_str e =
     (case e of NameError name \<Rightarrow> py ''name '' @ [39] @ py name @ [39] @ py '' is not defined''
              | ServiceError msg \<Rightarrow> msg)"

definition stop_with :: "config_exn \<Rightarrow> gemini_outcome" where
  "stop_with e = Stopped [py ''Failed to configure Gemini: '' @ config_exn_str e]"

text \<open>
  \<open>configure_gemini\<close>: the model it returns, or the messages shown by \<open>st.error\<close>
  before \<open>st.stop()\<close> ends the run.
\<close>

definition configure_gemini :: "genai_lib \<Rightarrow> gemini_outcome" where
  "configure_gemini lib =
     (case load_global ''GEMINI_API_KEY'' of
        Inl e \<Rightarrow> stop_with e
      | Inr key \<Rightarrow>
          (case configure lib key of
             Some msg \<Rightarrow> stop_with (ServiceError msg)
           | None \<Rightarrow>
               (case load_global ''MODEL_NAME'' of
                  Inl e \<Rightarrow> stop_with e
                | Inr name \<Rightarrow>
                    (case GenerativeModel lib name of
                       Some msg \<Rightarrow> stop_with (ServiceError msg)
                     | None \<Rightarrow> Configured name))))"

section \<open>Properties of slide content generation\<close>

declare str_nat.simps [simp del]

lemma dropWhile_all: "(\<forall>x\<in>set (dropWhile P s). P x) \<longleftrightarrow> (\<forall>x\<in>set s. P x)"
  by (induction s) auto

lemma strip_ws_Nil_iff: "strip_ws s = [] \<longleftrightarrow> (\<forall>c\<in>set s. py_isspace c)"
  by (simp add: strip_ws_def dropWhile_eq_Nil_conv dropWhile_all)

lemma sublist_single: "sublist [c] s \<longleftrightarrow> c \<in> set s"
  by (induction s) (auto simp: sublist_Cons_right)

lemma has_marker_iff:
  "list_ex (\<lambda>marker. sublist marker content) markers \<longleftrightarrow> 45 \<in> set content \<or> 8226 \<in> set content \<or> 42 \<in> set content"
  by (simp add: markers_def py_def sublist_single)

lemma not_space_markers: "\<not> py_isspace 45" "\<not> py_isspace 8226" "\<not> py_isspace 42"
  by (simp_all add: py_isspace_def)

lemma empty_placeholder_ok: "45 \<in> set empty_placeholder"
  by (simp add: empty_placeholder_def py_def)

lemma exception_placeholder_ok: "45 \<in> set exception_placeholder"
  by (simp add: exception_placeholder_def py_def)

lemma ensure_bullets_marker: "45 \<in> set (ensure_bullets c) \<or> 8226 \<in> set (ensure_bullets c) \<or> 42 \<in> set (ensure_bullets c)"
  using empty_placeholder_ok by (auto simp: ensure_bullets_def has_marker_iff py_def)

lemma marker_not_blank: "45 \<in> set c \<or> 8226 \<in> set c \<or> 42 \<in> set c \<Longrightarrow> strip_ws c \<noteq> []"
  using not_space_markers by (auto simp: strip_ws_Nil_iff)

lemma exception_placeholder_lines: "length (split_str [NL] exception_placeholder) = 3"
  by (simp add: exception_placeholder_def py_def NL_def)

text \<open>
  Claim C4. Whatever the generation service does on the call (it returns any string,
  empty or blank included, or it raises), \<open>generate_slide_content\<close> returns a string
  that is not empty, is not made of white space only and contains one of the bullet
  markers; when the service raises, the result is the fixed placeholder of three lines.
\<close>

theorem generate_slide_content_usable:
  "(let content = fst (generate_slide_content model st pdf_text slide_title) in
      content \<noteq> [] \<and> strip_ws content \<noteq> []
       \<and> list_ex (\<lambda>marker. sublist marker content) markers
       \<and> (\<forall>e st'. model st (slide_prompt pdf_text slide_title) = (Raises e, st')
            \<longrightarrow> content = exception_placeholder \<and> length (split_str [NL] content) = 3))"
proof -
  define content where "content = fst (generate_slide_content model st pdf_text slide_title)"
  have m: "45 \<in> set content \<or> 8226 \<in> set content \<or> 42 \<in> set content"
    unfolding content_def generate_slide_content_def
    using ensure_bullets_marker exception_placeholder_ok
    by (auto split: prod.splits service_result.splits)
  have r: "\<forall>e st'. model st (slide_prompt pdf_text slide_title) = (Raises e, st')
            \<longrightarrow> content = exception_placeholder \<and> length (split_str [NL] content) = 3"
    unfolding content_def generate_slide_content_def
    by (auto simp: exception_placeholder_lines)
  from m have "strip_ws content \<noteq> []" by (rule marker_not_blank)
  moreover from m have "content \<noteq> []" by auto
  ultimately show ?thesis using m r unfolding content_def [symmetric] Let_def
    by (simp add: has_marker_iff exception_placeholder_lines)
qed

theorem generate_slide_content_usable_witness:
  "generate_slide_content (failing_service (py ''quota'')) () (py ''doc'') (py ''Intro'') = (exception_placeholder, ())
   \<and> strip_ws exception_placeholder \<noteq> []"
  using generate_slide_content_usable [of "failing_service (py ''quota'')" "()" "py ''doc''" "py ''Intro''"]
  by (simp add: failing_service_def generate_slide_content_def Let_def)


lemma bullet_prefixed_iff: "bullet_prefixed l \<longleftrightarrow> (\<exists>c cs. l = c # cs \<and> (c = 45 \<or> c = 8226 \<or> c = 42))"
  by (cases l) (auto simp: bullet_prefixed_def markers_def py_def)

lemma split_str_hd_Cons: "\<not> prefix sep (c # cs) \<Longrightarrow> \<exists>p ps. split_str sep (c # cs) = (c # p) # ps"
  by (cases "split_str sep cs") auto

lemma has_bullet_line_Cons: "c = 45 \<or> c = 8226 \<or> c = 42 \<Longrightarrow> has_bullet_line (c # cs)"
  using split_str_hd_Cons [of "[NL]" c cs]
  by (auto simp: has_bullet_line_def bullet_prefixed_iff NL_def)

lemma has_bullet_line_empty_placeholder: "has_bullet_line empty_placeholder"
  by (simp add: empty_placeholder_def py_def has_bullet_line_Cons)

text \<open>
  Where the content has a line that begins with a bullet marker: when the service
  returns a non-empty string \<open>s\<close>, it has one exactly when \<open>s\<close> is blank (the
  placeholder is substituted), or \<open>s\<close> contains no marker at all (every line is
  re-wrapped), or \<open>s\<close> already has such a line.
\<close>

lemma generate_slide_content_bullet_line:
  "s \<noteq> [] \<Longrightarrow> model st (slide_prompt pdf_text slide_title) = (Returns s, st') \<Longrightarrow>
   has_bullet_line (fst (generate_slide_content model st pdf_text slide_title))
     \<longleftrightarrow> strip_ws s = [] \<or> \<not> list_ex (\<lambda>marker. sublist marker s) markers \<or> has_bullet_line s"
  by (auto simp: generate_slide_content_def ensure_bullets_def has_bullet_line_empty_placeholder
        py_def has_bullet_line_Cons)

text \<open>
  Claim C5, at the text \<open>well-known fact\<close>, for every document text and slide title:
  the service returns this non-empty string, whose only marker is the hyphen inside a
  word; the test for a marker finds it, the text is returned as it is, and no line of
  the content begins with a bullet marker. On the sibling path the same text without
  the hyphen, \<open>well known fact\<close>, is re-wrapped into \<open>- well known fact\<close>, which
  has a bullet-prefixed line.
\<close>

theorem hyphenated_text_not_bulleted:
  "py ''well-known fact'' \<noteq> []
   \<and> fst (generate_slide_content (const_service (py ''well-known fact'')) () pdf_text slide_title)
       = py ''well-known fact''
   \<and> \<not> has_bullet_line
         (fst (generate_slide_content (const_service (py ''well-known fact'')) () pdf_text slide_title))
   \<and> fst (generate_slide_content (const_service (py ''well known fact'')) () pdf_text slide_title)
       = py ''- well known fact''
   \<and> has_bullet_line
         (fst (generate_slide_content (const_service (py ''well known fact'')) () pdf_text slide_title))"
  by (simp add: generate_slide_content_def const_service_def ensure_bullets_def py_def markers_def
        has_bullet_line_def bullet_prefixed_def strip_ws_def py_isspace_def NL_def sublist_single
        replace_char_def)

section \<open>Properties of text extraction\<close>

lemma extract_pages_mono: "length acc \<le> length (fst (extract_pages i pages acc))"
proof (induction i pages acc rule: extract_pages.induct)
  case (3 i page_text pages acc)
  then show ?case
    by (cases page_text) (auto simp: Let_def split: if_splits)
qed simp_all

lemma extract_pages_append:
  "length (t @ fst (extract_pages i pages u)) \<le> PROCESSING_CHUNK_SIZE \<Longrightarrow>
   extract_pages i pages (t @ u) = (t @ fst (extract_pages i pages u), snd (extract_pages i pages u))"
proof (induction i pages u rule: extract_pages.induct)
  case (3 i page_text pages acc)
  define text' where "text' = (case page_text of None \<Rightarrow> acc
      | Some p \<Rightarrow> if p \<noteq> [] then acc @ page_block i p else acc)"
  have eq: "(case page_text of None \<Rightarrow> t @ acc
      | Some p \<Rightarrow> if p \<noteq> [] then (t @ acc) @ page_block i p else t @ acc) = t @ text'"
    by (simp add: text'_def split: option.splits)
  show ?case
  proof (cases "length text' > PROCESSING_CHUNK_SIZE")
    case True
    with "3.prems" show ?thesis
      by (simp add: text'_def [symmetric] Let_def)
  next
    case False
    then have res: "extract_pages i (PageText page_text # pages) acc = extract_pages (Suc i) pages text'"
      by (simp add: text'_def [symmetric] Let_def)
    have "length text' \<le> length (fst (extract_pages (Suc i) pages text'))"
      by (rule extract_pages_mono)
    with "3.prems" res have small: "\<not> length (t @ text') > PROCESSING_CHUNK_SIZE"
      by simp
    from "3.prems" res have "length (t @ fst (extract_pages (Suc i) pages text')) \<le> PROCESSING_CHUNK_SIZE"
      by simp
    with "3.IH" [OF text'_def False]
    have "extract_pages (Suc i) pages (t @ text')
          = (t @ fst (extract_pages (Suc i) pages text'), snd (extract_pages (Suc i) pages text'))"
      by simp
    with small res show ?thesis
      unfolding extract_pages.simps(3) [of i page_text pages "t @ acc"] eq Let_def
      by simp
  qed
qed simp_all

lemma str_nat_1: "str_nat (Suc 0) = [49]"
  by (simp add: str_nat.simps)

lemma run_provider_append:
  "length acc + length (provider_text run) \<le> PROCESSING_CHUNK_SIZE \<Longrightarrow>
   fst (run_provider run acc) = acc @ provider_text run"
  using extract_pages_append [of acc 0 _ "[]"]
  by (cases run) (auto simp: run_provider_def provider_text_def)

text \<open>
  Claim C3, as amended. The text accumulated from a provider is what
  \<open>extract_text_from_pdf\<close> builds from its pages: every non-empty page text with the
  marker \<open>[Page N]\<close> and the line breaks put before it. When the text accumulated
  from each provider on its own is shorter than the minimum content length and the two
  accumulated texts together are no longer than that minimum,
  \<open>extract_text_from_pdf\<close> returns no text and the error message about a scanned
  document. The second text is appended to the first, and the test for success is on
  the merged text, markers included.
\<close>

theorem extract_insufficient:
  "length (provider_text plumber) < MIN_CONTENT_LENGTH \<Longrightarrow>
   length (provider_text pypdf2) < MIN_CONTENT_LENGTH \<Longrightarrow>
   length (provider_text plumber) + length (provider_text pypdf2) \<le> MIN_CONTENT_LENGTH \<Longrightarrow>
   fst (extract_text_from_pdf plumber pypdf2) = (None, Some scanned_error)"
proof -
  assume a: "length (provider_text plumber) < MIN_CONTENT_LENGTH"
    and s: "length (provider_text plumber) + length (provider_text pypdf2) \<le> MIN_CONTENT_LENGTH"
  have "fst (run_provider pypdf2 (provider_text plumber)) = provider_text plumber @ provider_text pypdf2"
    using s by (intro run_provider_append) (simp add: MIN_CONTENT_LENGTH_def PROCESSING_CHUNK_SIZE_def)
  then have "length (fst (run_provider pypdf2 (fst (run_provider plumber [])))) \<le> MIN_CONTENT_LENGTH"
    using s by (simp add: provider_text_def)
  with a show ?thesis
    by (simp add: extract_text_from_pdf_def provider_text_def Let_def split_beta)
qed

text \<open>
  The claim as first stated fails: each provider reads one page of 50 letters, which
  gives a text of 61 code points with the page marker, shorter than 100; the merged text
  has 122 code points and is returned.
\<close>

theorem extract_insufficient_counterexample:
  "length (provider_text (one_page 50)) < MIN_CONTENT_LENGTH \<and>
   fst (fst (extract_text_from_pdf (one_page 50) (one_page 50))) \<noteq> None"
  by (simp add: extract_text_from_pdf_def provider_text_def one_page_def run_provider_def
       page_block_def py_def Let_def str_nat_1 MIN_CONTENT_LENGTH_def PROCESSING_CHUNK_SIZE_def)

theorem extract_insufficient_witness:
  "length (provider_text (one_page 30)) < MIN_CONTENT_LENGTH \<and>
   length (provider_text (one_page 30)) + length (provider_text (one_page 30)) \<le> MIN_CONTENT_LENGTH \<and>
   fst (extract_text_from_pdf (one_page 30) (one_page 30)) = (None, Some scanned_error)"
  using extract_insufficient [of "one_page 30" "one_page 30"]
  by (simp add: provider_text_def one_page_def run_provider_def
       page_block_def py_def Let_def str_nat_1 MIN_CONTENT_LENGTH_def PROCESSING_CHUNK_SIZE_def)

text \<open>
  Claim C8. When the first provider alone accumulates a text of length at least the
  minimum content length, the second provider is not opened, and the outcome does not
  depend on what the second provider would have done.
\<close>

theorem fallback_is_lazy:
  "MIN_CONTENT_LENGTH \<le> length (provider_text plumber) \<Longrightarrow>
   PyPDF2Opened \<notin> set (snd (extract_text_from_pdf plumber pypdf2)) \<and>
   extract_text_from_pdf plumber pypdf2 = extract_text_from_pdf plumber other"
  by (auto simp: extract_text_from_pdf_def provider_text_def Let_def warn_def
       split: prod.splits option.splits)

theorem fallback_is_lazy_witness:
  "MIN_CONTENT_LENGTH \<le> length (provider_text (one_page 89)) \<and>
   PyPDF2Opened \<notin> set (snd (extract_text_from_pdf (one_page 89) (one_page 7)))"
  using fallback_is_lazy [of "one_page 89" "one_page 7"]
  by (simp add: provider_text_def one_page_def run_provider_def
       page_block_def py_def Let_def str_nat_1 MIN_CONTENT_LENGTH_def PROCESSING_CHUNK_SIZE_def)

text \<open>
  With a shorter first text the second provider is opened, so the trace does record it.
\<close>

lemma fallback_runs_when_short:
  "PyPDF2Opened \<in> set (snd (extract_text_from_pdf (one_page 30) (one_page 7)))"
  by (simp add: extract_text_from_pdf_def provider_text_def one_page_def run_provider_def
       page_block_def py_def Let_def str_nat_1 MIN_CONTENT_LENGTH_def PROCESSING_CHUNK_SIZE_def warn_def)

section \<open>Properties of the service configuration\<close>

text \<open>
  Claim C10. Whatever the service library would do with a credential,
  \<open>configure_gemini\<close> raises NameError on the name \<open>GEMINI_API_KEY\<close>, which the
  module never binds, before it calls the library; the error is reported and the run is
  stopped, and no model is returned.
\<close>

theorem configure_gemini_always_stops:
  "load_global ''GEMINI_API_KEY'' = Inl (NameError ''GEMINI_API_KEY'') \<and>
   configure_gemini lib =
     Stopped [py ''Failed to configure Gemini: name '' @ [39] @ py ''GEMINI_API_KEY'' @ [39] @ py '' is not defined''] \<and>
   configure_gemini lib \<noteq> Configured m"
  by (simp add: configure_gemini_def load_global_def module_globals_def stop_with_def config_exn_str_def py_def)

section \<open>Properties of presentation assembly\<close>

lemma attempt_Inr: "attempt flt s cont = Inr x \<longleftrightarrow> flt s = None \<and> cont = Inr x"
  by (simp add: attempt_def split: option.splits)

lemma attempt_None: "flt s = None \<Longrightarrow> attempt flt s cont = cont"
  by (simp add: attempt_def)

lemma content_slides_faults:
  "content_slides model flt pdf_text k plan prs st = Inr prs' \<Longrightarrow>
   \<forall>s \<in> set (concat (map (\<lambda>(k, slide_title). [AddSlide k, SetTitle k, SetContent k, Format k])
        (filter (\<lambda>(k, slide_title). \<not> sublist (py ''[Title Slide]'') slide_title) (enumerate k plan)))).
     flt s = None"
proof (induction model flt pdf_text k plan prs st rule: content_slides.induct)
  case (1 model flt pdf_text k prs st)
  then show ?case by simp
next
  case (2 model flt pdf_text k slide_title rest prs st)
  show ?case
  proof (cases "sublist (py ''[Title Slide]'') slide_title")
    case True
    with 2 show ?thesis by simp
  next
    case False
    obtain content st' where g: "generate_slide_content model st pdf_text slide_title = (content, st')"
      by fastforce
    from "2.prems" False g
    have f: "flt (AddSlide k) = None" "flt (SetTitle k) = None" "flt (SetContent k) = None"
        "flt (Format k) = None"
      and r: "content_slides model flt pdf_text (Suc k) rest
                   (prs\<lparr>slides := slides prs @
                      [\<lparr>layout = 1,
                        title_text = filter (\<lambda>c. c \<noteq> 93) (filter (\<lambda>c. c \<noteq> 91) slide_title),
                        body = map format_paragraph (set_text content)\<rparr>]\<rparr>)
                   st' = Inr prs'"
      by (simp_all add: attempt_Inr)
    from "2.IH"(2) [OF False g [symmetric] refl r] f False show ?thesis
      by simp
  qed
qed

lemma content_slides_success:
  "\<forall>s \<in> set (concat (map (\<lambda>(k, slide_title). [AddSlide k, SetTitle k, SetContent k, Format k])
        (filter (\<lambda>(k, slide_title). \<not> sublist (py ''[Title Slide]'') slide_title) (enumerate k plan)))).
     flt s = None \<Longrightarrow>
   \<exists>new. content_slides model flt pdf_text k plan prs st = Inr (prs\<lparr>slides := slides prs @ new\<rparr>)
     \<and> map title_text new =
         map (\<lambda>(k, slide_title). filter (\<lambda>c. c \<noteq> 93) (filter (\<lambda>c. c \<noteq> 91) slide_title))
           (filter (\<lambda>(k, slide_title). \<not> sublist (py ''[Title Slide]'') slide_title) (enumerate k plan))
     \<and> (\<forall>s \<in> set new. layout s = 1)"
proof (induction model flt pdf_text k plan prs st rule: content_slides.induct)
  case (1 model flt pdf_text k prs st)
  then show ?case by simp
next
  case (2 model flt pdf_text k slide_title rest prs st)
  show ?case
  proof (cases "sublist (py ''[Title Slide]'') slide_title")
    case True
    with 2 show ?thesis by simp
  next
    case False
    obtain content st' where g: "generate_slide_content model st pdf_text slide_title = (content, st')"
      by fastforce
    define s1 where "s1 = \<lparr>layout = 1,
                        title_text = filter (\<lambda>c. c \<noteq> 93) (filter (\<lambda>c. c \<noteq> 91) slide_title),
                        body = map format_paragraph (set_text content)\<rparr>"
    from "2.prems" False
    have f: "flt (AddSlide k) = None" "flt (SetTitle k) = None" "flt (SetContent k) = None"
        "flt (Format k) = None"
      and rest: "\<forall>s \<in> set (concat (map (\<lambda>(k, slide_title). [AddSlide k, SetTitle k, SetContent k, Format k])
        (filter (\<lambda>(k, slide_title). \<not> sublist (py ''[Title Slide]'') slide_title) (enumerate (Suc k) rest)))).
          flt s = None"
      by simp_all
    from "2.IH"(2) [OF False g [symmetric] refl rest]
    obtain new where n: "content_slides model flt pdf_text (Suc k) rest (prs\<lparr>slides := slides prs @ [s1]\<rparr>) st'
        = Inr (prs\<lparr>slides := slides prs @ [s1]\<rparr>\<lparr>slides := slides (prs\<lparr>slides := slides prs @ [s1]\<rparr>) @ new\<rparr>)"
      and t: "map title_text new =
         map (\<lambda>(k, slide_title). filter (\<lambda>c. c \<noteq> 93) (filter (\<lambda>c. c \<noteq> 91) slide_title))
           (filter (\<lambda>(k, slide_title). \<not> sublist (py ''[Title Slide]'') slide_title) (enumerate (Suc k) rest))"
      and l: "\<forall>s \<in> set new. layout s = 1"
      unfolding s1_def by blast
    have "content_slides model flt pdf_text k (slide_title # rest) prs st
        = Inr (prs\<lparr>slides := slides prs @ (s1 # new)\<rparr>)"
      using False g f n by (simp add: attempt_None s1_def)
    moreover have "map title_text (s1 # new) =
         map (\<lambda>(k, slide_title). filter (\<lambda>c. c \<noteq> 93) (filter (\<lambda>c. c \<noteq> 91) slide_title))
           (filter (\<lambda>(k, slide_title). \<not> sublist (py ''[Title Slide]'') slide_title) (enumerate k (slide_title # rest)))"
      using False t by (simp add: s1_def)
    moreover have "\<forall>s \<in> set (s1 # new). layout s = 1"
      using l by (simp add: s1_def)
    ultimately show ?thesis by blast
  qed
qed


lemma build_presentation_faults:
  assumes "build_presentation model flt st now ppt_title slide_structure pdf_text = Inr prs"
  shows "\<exists>plan. parse_outline slide_structure = Inr plan
           \<and> (\<forall>s \<in> set (butlast (butlast (assembly_steps plan))). flt s = None)"
proof -
  from assms have f: "flt NewPresentation = None" "flt TitleSlide = None"
    by (simp_all add: build_presentation_def attempt_Inr)
  from assms obtain plan where p: "parse_outline slide_structure = Inr plan"
    by (cases "parse_outline slide_structure") (simp_all add: build_presentation_def attempt_Inr)
  with assms f have "content_slides model flt pdf_text 0 (take MAX_SLIDES plan)
              \<lparr>slide_width = 12191695, slide_height = 6858000,
               slides = [\<lparr>layout = 0, title_text = ppt_title,
                          body = set_text (py ''Generated '' @ now)\<rparr>]\<rparr> st = Inr prs"
    by (simp add: build_presentation_def attempt_None)
  from content_slides_faults [OF this] f p show ?thesis
    by (simp add: assembly_steps_def emitted_def butlast_append)
qed

lemma build_presentation_success:
  assumes p: "parse_outline slide_structure = Inr plan"
    and f: "\<forall>s \<in> set (butlast (butlast (assembly_steps plan))). flt s = None"
  shows "\<exists>prs. build_presentation model flt st now ppt_title slide_structure pdf_text = Inr prs
           \<and> map title_text (slides prs) = ppt_title #
                map (\<lambda>(k, slide_title). filter (\<lambda>c. c \<noteq> 93) (filter (\<lambda>c. c \<noteq> 91) slide_title))
                  (emitted plan)
           \<and> map layout (slides prs) = 0 # replicate (length (emitted plan)) 1"
proof -
  from f have f0: "flt NewPresentation = None" "flt TitleSlide = None"
    and fs: "\<forall>s \<in> set (concat (map (\<lambda>(k, slide_title). [AddSlide k, SetTitle k, SetContent k, Format k])
        (filter (\<lambda>(k, slide_title). \<not> sublist (py ''[Title Slide]'') slide_title)
           (enumerate 0 (take MAX_SLIDES plan))))). flt s = None"
    by (simp_all add: assembly_steps_def emitted_def butlast_append)
  define prs0 where "prs0 = \<lparr>slide_width = 12191695, slide_height = 6858000,
               slides = [\<lparr>layout = 0, title_text = ppt_title,
                          body = set_text (py ''Generated '' @ now)\<rparr>]\<rparr>"
  from content_slides_success [OF fs, of model pdf_text prs0 st]
  obtain new where n: "content_slides model flt pdf_text 0 (take MAX_SLIDES plan) prs0 st
         = Inr (prs0\<lparr>slides := slides prs0 @ new\<rparr>)"
    and t: "map title_text new =
         map (\<lambda>(k, slide_title). filter (\<lambda>c. c \<noteq> 93) (filter (\<lambda>c. c \<noteq> 91) slide_title)) (emitted plan)"
    and l: "\<forall>s \<in> set new. layout s = 1"
    unfolding emitted_def by blast
  from l have "map layout new = replicate (length new) 1"
    by (induction new) simp_all
  moreover from t have "length new = length (emitted plan)"
    by (metis length_map)
  ultimately have l': "map layout new = replicate (length (emitted plan)) 1"
    by simp
  have "build_presentation model flt st now ppt_title slide_structure pdf_text
          = Inr (prs0\<lparr>slides := slides prs0 @ new\<rparr>)"
    using p f0 n by (simp add: build_presentation_def attempt_None prs0_def)
  with t l' show ?thesis
    by (simp add: prs0_def)
qed

lemma assembly_steps_split:
  "(\<forall>s \<in> set (assembly_steps plan). flt s = None) \<longleftrightarrow>
   (\<forall>s \<in> set (butlast (butlast (assembly_steps plan))). flt s = None)
     \<and> flt TempFile = None \<and> flt Save = None"
  by (auto simp: assembly_steps_def butlast_append)

lemma create_presentation_success:
  assumes p: "parse_outline slide_structure = Inr plan"
    and f: "\<forall>s \<in> set (assembly_steps plan). flt s = None"
  shows "\<exists>prs. create_presentation model flt st now tmp_name ppt_title slide_structure pdf_text
             = \<lparr>path = Some tmp_name, temp_file = Written prs, ui_errors = []\<rparr>
           \<and> map title_text (slides prs) = ppt_title #
                map (\<lambda>(k, slide_title). filter (\<lambda>c. c \<noteq> 93) (filter (\<lambda>c. c \<noteq> 91) slide_title))
                  (emitted plan)
           \<and> map layout (slides prs) = 0 # replicate (length (emitted plan)) 1"
proof -
  from f have f': "\<forall>s \<in> set (butlast (butlast (assembly_steps plan))). flt s = None"
    and e: "flt TempFile = None" "flt Save = None"
    by (simp_all add: assembly_steps_split)
  from build_presentation_success [OF p f', of model st now ppt_title pdf_text] e
  show ?thesis
    by (auto simp: create_presentation_def)
qed

lemma create_presentation_path:
  "path (create_presentation model flt st now tmp_name ppt_title slide_structure pdf_text) \<noteq> None
   \<longleftrightarrow> (\<exists>plan. parse_outline slide_structure = Inr plan \<and> (\<forall>s \<in> set (assembly_steps plan). flt s = None))"
proof
  assume a: "path (create_presentation model flt st now tmp_name ppt_title slide_structure pdf_text) \<noteq> None"
  then obtain prs where b: "build_presentation model flt st now ppt_title slide_structure pdf_text = Inr prs"
    by (cases "build_presentation model flt st now ppt_title slide_structure pdf_text")
       (simp_all add: create_presentation_def failed_def)
  with a have "flt TempFile = None" "flt Save = None"
    by (simp_all add: create_presentation_def failed_def split: option.splits)
  with build_presentation_faults [OF b] show "\<exists>plan. parse_outline slide_structure = Inr plan \<and> (\<forall>s \<in> set (assembly_steps plan). flt s = None)"
    by (auto simp: assembly_steps_split)
next
  assume "\<exists>plan. parse_outline slide_structure = Inr plan \<and> (\<forall>s \<in> set (assembly_steps plan). flt s = None)"
  then obtain plan where p: "parse_outline slide_structure = Inr plan"
    and f: "\<forall>s \<in> set (assembly_steps plan). flt s = None"
    by blast
  from create_presentation_success [OF p f, of model st now tmp_name ppt_title pdf_text]
  show "path (create_presentation model flt st now tmp_name ppt_title slide_structure pdf_text) \<noteq> None"
    by auto
qed

lemma create_presentation_None:
  "path (create_presentation model flt st now tmp_name ppt_title slide_structure pdf_text) = None \<Longrightarrow>
   temp_file (create_presentation model flt st now tmp_name ppt_title slide_structure pdf_text) \<in> {NoFile, Leftover}
   \<and> length (ui_errors (create_presentation model flt st now tmp_name ppt_title slide_structure pdf_text)) = 1"
  by (auto simp: create_presentation_def failed_def split: sum.splits option.splits)

lemma create_presentation_Some:
  "path (create_presentation model flt st now tmp_name ppt_title slide_structure pdf_text) \<noteq> None \<Longrightarrow>
   path (create_presentation model flt st now tmp_name ppt_title slide_structure pdf_text) = Some tmp_name
   \<and> (\<exists>prs. temp_file (create_presentation model flt st now tmp_name ppt_title slide_structure pdf_text) = Written prs)
   \<and> ui_errors (create_presentation model flt st now tmp_name ppt_title slide_structure pdf_text) = []"
  by (auto simp: create_presentation_def failed_def split: sum.splits option.splits)

lemma emitted_length: "length (emitted plan) \<le> MAX_SLIDES"
proof -
  have "length (emitted plan) \<le> length (enumerate 0 (take MAX_SLIDES plan))"
    unfolding emitted_def by (rule length_filter_le)
  then show ?thesis by simp
qed

lemma count_layouts: "length (filter (\<lambda>s. layout s = 1) xs) = length (filter (\<lambda>l. l = 1) (map layout xs))"
  by (induction xs) simp_all

lemma content_slide_count_eq:
  "content_slide_count (create_presentation model flt st now tmp_name ppt_title slide_structure pdf_text)
   = (case parse_outline slide_structure of
        Inr plan \<Rightarrow> if \<forall>s \<in> set (assembly_steps plan). flt s = None then length (emitted plan) else 0
      | Inl e \<Rightarrow> 0)"
proof (cases "path (create_presentation model flt st now tmp_name ppt_title slide_structure pdf_text) = None")
  case True
  with create_presentation_None [OF True] create_presentation_path [of model flt st now tmp_name ppt_title slide_structure pdf_text]
  show ?thesis
    by (auto simp: content_slide_count_def saved_slides_def split: sum.splits)
next
  case False
  then obtain plan where p: "parse_outline slide_structure = Inr plan"
    and f: "\<forall>s \<in> set (assembly_steps plan). flt s = None"
    using create_presentation_path [of model flt st now tmp_name ppt_title slide_structure pdf_text] by blast
  from create_presentation_success [OF p f, of model st now tmp_name ppt_title pdf_text]
  obtain prs where c: "create_presentation model flt st now tmp_name ppt_title slide_structure pdf_text
             = \<lparr>path = Some tmp_name, temp_file = Written prs, ui_errors = []\<rparr>"
    and l: "map layout (slides prs) = 0 # replicate (length (emitted plan)) 1"
    by (elim exE conjE)
  have "content_slide_count (create_presentation model flt st now tmp_name ppt_title slide_structure pdf_text)
      = length (filter (\<lambda>l. l = 1) (map layout (slides prs)))"
    using count_layouts [of "slides prs"] by (simp add: c content_slide_count_def saved_slides_def)
  also have "\<dots> = length (emitted plan)"
    by (simp add: l)
  finally show ?thesis using p f by simp
qed


text \<open>
  Claim C6. \<open>create_presentation\<close> returns a path exactly when the outline parses
  without an exception and no library step of the run raises. When anything raises, it
  returns no path, the temporary file holds no presentation (it is absent, or left as
  created when saving raised), and one error is shown. When it returns a path, that is
  the name of the temporary file, which holds the whole presentation.
\<close>

theorem create_presentation_all_or_nothing:
  "(let r = create_presentation model flt st now tmp_name ppt_title slide_structure pdf_text in
      (path r \<noteq> None \<longleftrightarrow>
         (\<exists>plan. parse_outline slide_structure = Inr plan
            \<and> (\<forall>s \<in> set (assembly_steps plan). flt s = None)))
      \<and> (path r = None \<longrightarrow> temp_file r \<in> {NoFile, Leftover} \<and> length (ui_errors r) = 1)
      \<and> (path r \<noteq> None \<longrightarrow>
           path r = Some tmp_name \<and> (\<exists>prs. temp_file r = Written prs) \<and> ui_errors r = []))"
  unfolding Let_def
  using create_presentation_path [of model flt st now tmp_name ppt_title slide_structure pdf_text]
    create_presentation_None [of model flt st now tmp_name ppt_title slide_structure pdf_text]
    create_presentation_Some [of model flt st now tmp_name ppt_title slide_structure pdf_text]
  by blast

lemma parse_five_entry_outline:
  "parse_outline five_entry_outline =
     Inr [py ''Title Slide'', py ''Introduction'', py ''Key Finding 1'', py ''Key Finding 2'',
          py ''Conclusion'']"
  by (simp add: parse_outline_def five_entry_outline_def py_def NL_def parse_line_def strip_chars_def)

lemma emitted_five:
  "emitted [py ''Title Slide'', py ''Introduction'', py ''Key Finding 1'', py ''Key Finding 2'',
          py ''Conclusion''] =
   [(0, py ''Title Slide''), (1, py ''Introduction''), (2, py ''Key Finding 1''),
    (3, py ''Key Finding 2''), (4, py ''Conclusion'')]"
  by (simp add: emitted_def MAX_SLIDES_def py_def sublist_Cons_right)

theorem create_presentation_all_or_nothing_witness:
  "path (create_presentation (const_service (py ''- fact'')) (fault_at Save (py ''disk full'')) ()
           (py ''03 Nov 2026 10:00'') (py ''/tmp/tmpa.pptx'') (py ''Q3 Report'') five_entry_outline (py ''doc'')) = None
   \<and> path (create_presentation (const_service (py ''- fact'')) no_faults ()
           (py ''03 Nov 2026 10:00'') (py ''/tmp/tmpa.pptx'') (py ''Q3 Report'') five_entry_outline (py ''doc''))
       = Some (py ''/tmp/tmpa.pptx'')"
proof -
  have "Save \<in> set (assembly_steps plan)" for plan
    by (simp add: assembly_steps_def)
  then have "\<not> (\<exists>plan. parse_outline five_entry_outline = Inr plan
            \<and> (\<forall>s \<in> set (assembly_steps plan). fault_at Save (py ''disk full'') s = None))"
    by (auto simp: fault_at_def)
  moreover have "\<exists>plan. parse_outline five_entry_outline = Inr plan
            \<and> (\<forall>s \<in> set (assembly_steps plan). no_faults s = None)"
    by (simp add: parse_five_entry_outline no_faults_def)
  ultimately show ?thesis
    using create_presentation_all_or_nothing [of "const_service (py ''- fact'')" "fault_at Save (py ''disk full'')" "()"
        "py ''03 Nov 2026 10:00''" "py ''/tmp/tmpa.pptx''" "py ''Q3 Report''" five_entry_outline "py ''doc''"]
      create_presentation_all_or_nothing [of "const_service (py ''- fact'')" no_faults "()"
        "py ''03 Nov 2026 10:00''" "py ''/tmp/tmpa.pptx''" "py ''Q3 Report''" five_entry_outline "py ''doc''"]
    unfolding Let_def by blast
qed

text \<open>
  Claim C1, at the five-entry outline in the required format, with no step raising:
  the title of the first entry is stored without its brackets, the test for
  \<open>[Title Slide]\<close> does not match it, and the presentation has the title slide and
  five content slides, the first of them titled \<open>Title Slide\<close>.
\<close>

theorem title_entry_not_skipped:
  "parse_outline five_entry_outline =
     Inr [py ''Title Slide'', py ''Introduction'', py ''Key Finding 1'', py ''Key Finding 2'',
          py ''Conclusion'']
   \<and> map title_text (saved_slides (create_presentation model no_faults st now tmp_name
          (py ''Q3 Report'') five_entry_outline pdf_text))
       = [py ''Q3 Report'', py ''Title Slide'', py ''Introduction'', py ''Key Finding 1'',
          py ''Key Finding 2'', py ''Conclusion'']
   \<and> content_slide_count (create_presentation model no_faults st now tmp_name
          (py ''Q3 Report'') five_entry_outline pdf_text) = 5"
proof -
  have f: "\<forall>s \<in> set (assembly_steps [py ''Title Slide'', py ''Introduction'', py ''Key Finding 1'', py ''Key Finding 2'',
          py ''Conclusion'']). no_faults s = None"
    by (simp add: no_faults_def)
  from create_presentation_success [OF parse_five_entry_outline f, of model st now tmp_name "py ''Q3 Report''" pdf_text]
  have "map title_text (saved_slides (create_presentation model no_faults st now tmp_name
          (py ''Q3 Report'') five_entry_outline pdf_text))
       = [py ''Q3 Report'', py ''Title Slide'', py ''Introduction'', py ''Key Finding 1'',
          py ''Key Finding 2'', py ''Conclusion'']"
    unfolding emitted_five by (auto simp: saved_slides_def py_def)
  moreover have "content_slide_count (create_presentation model no_faults st now tmp_name
          (py ''Q3 Report'') five_entry_outline pdf_text) = 5"
    using f by (simp add: content_slide_count_eq parse_five_entry_outline emitted_five)
  ultimately show ?thesis
    using parse_five_entry_outline by simp
qed

text \<open>
  Claim C2, at an outline whose first line is \<open>Slide 1 - Overview\<close>: reading the
  second segment of the first part raises IndexError, the well-formed line after it is
  not parsed, and \<open>create_presentation\<close> returns no path.
\<close>

theorem colonless_line_raises:
  "parse_line (py ''Slide 1 - Overview'') = Inl IndexError
   \<and> parse_outline colonless_outline = Inl IndexError
   \<and> create_presentation model no_faults st now tmp_name ppt_title colonless_outline pdf_text
       = \<lparr>path = None, temp_file = NoFile,
          ui_errors = [py ''PPT creation failed: list index out of range'']\<rparr>"
proof -
  have l: "parse_line (py ''Slide 1 - Overview'') = Inl IndexError"
    by (simp add: py_def parse_line_def)
  have o: "parse_outline colonless_outline = Inl IndexError"
    by (simp add: parse_outline_def colonless_outline_def py_def NL_def parse_line_def)
  have "create_presentation model no_faults st now tmp_name ppt_title colonless_outline pdf_text
       = \<lparr>path = None, temp_file = NoFile,
          ui_errors = [py ''PPT creation failed: list index out of range'']\<rparr>"
    by (simp add: create_presentation_def build_presentation_def o attempt_def no_faults_def
          failed_def exn_str_def py_def)
  with l o show ?thesis by simp
qed

section \<open>Properties of outline parsing\<close>

subsection \<open>Splitting\<close>

lemma split_str_not_Nil: "split_str sep s \<noteq> []"
  by (induction sep s rule: split_str.induct) (auto split: list.splits)

lemma split_str_hd_prefix: "split_str sep s = p # ps \<Longrightarrow> prefix p s"
proof (induction sep s arbitrary: p ps rule: split_str.induct)
  case (1 sep)
  then show ?case by simp
next
  case (2 sep c cs)
  show ?case
  proof (cases "prefix sep (c # cs)")
    case True
    with "2.prems" show ?thesis by simp
  next
    case False
    obtain q qs where q: "split_str sep cs = q # qs"
      using split_str_not_Nil [of sep cs] by (cases "split_str sep cs") auto
    with "2.IH"(2) [OF False q] "2.prems" False show ?thesis by auto
  qed
qed

lemma split_str_no_sep: "\<not> sublist sep s \<Longrightarrow> split_str sep s = [s]"
proof (induction s)
  case Nil
  then show ?case by simp
next
  case (Cons c cs)
  then have "\<not> prefix sep (c # cs)" "\<not> sublist sep cs"
    by (auto simp: sublist_Cons_right)
  with Cons.IH show ?case by simp
qed

lemma split_str_sep_first: "sep \<noteq> [] \<Longrightarrow> split_str sep (sep @ b) = [] # split_str sep b"
  by (cases sep) simp_all

lemma split_str_first:
  "sep \<noteq> [] \<Longrightarrow> hd sep \<notin> set a \<Longrightarrow> split_str sep (a @ sep @ b) = a # split_str sep b"
proof (induction a)
  case Nil
  then show ?case by (simp add: split_str_sep_first)
next
  case (Cons x a)
  then have "\<not> prefix sep (x # a @ sep @ b)"
    by (cases sep) auto
  with Cons show ?case by simp
qed

lemma prefix_before_foreign: "z \<notin> set sep \<Longrightarrow> prefix sep (u @ z # w) \<Longrightarrow> prefix sep u"
  by (auto simp: prefix_append prefix_Cons)

lemma split_str_first_guarded:
  assumes "sep \<noteq> []" "z \<notin> set sep" "\<not> sublist sep a"
  shows "split_str sep (a @ z # sep @ b) = (a @ [z]) # split_str sep b"
  using assms(3)
proof (induction a)
  case Nil
  from assms(1,2) have "\<not> prefix sep (z # sep @ b)"
    by (cases sep) auto
  then show ?case using assms(1) by (simp add: split_str_sep_first)
next
  case (Cons x a)
  have "\<not> prefix sep ((x # a) @ z # sep @ b)"
  proof
    assume "prefix sep ((x # a) @ z # sep @ b)"
    with assms(2) have "prefix sep (x # a)" by (rule prefix_before_foreign)
    with Cons.prems show False by auto
  qed
  moreover from Cons.prems have "\<not> sublist sep a"
    by (auto simp: sublist_Cons_right)
  ultimately show ?case using Cons.IH by simp
qed

lemma sublist_across_foreign:
  "z \<notin> set sep \<Longrightarrow> sublist sep (u @ z # v) \<Longrightarrow> sublist sep u \<or> sublist sep v"
  by (auto simp: sublist_append sublist_Cons_right prefix_Cons)

lemma split_str_parts:
  "sep \<noteq> [] \<Longrightarrow> p \<in> set (split_str sep s) \<Longrightarrow> \<not> sublist sep p \<and> sublist p s"
proof (induction sep s arbitrary: p rule: split_str.induct)
  case (1 sep)
  then show ?case by simp
next
  case (2 sep c cs)
  show ?case
  proof (cases "prefix sep (c # cs)")
    case True
    with "2.prems" have "p = [] \<or> p \<in> set (split_str sep (drop (length sep - 1) cs))"
      by auto
    then show ?thesis
    proof
      assume "p = []"
      with "2.prems"(1) show ?thesis by simp
    next
      assume "p \<in> set (split_str sep (drop (length sep - 1) cs))"
      from "2.IH"(1) [OF True "2.prems"(1) this]
      have "\<not> sublist sep p" "sublist p (drop (length sep - 1) cs)" by simp_all
      moreover have "sublist (drop (length sep - 1) cs) (c # cs)"
        by (simp add: sublist_Cons_right)
      ultimately show ?thesis
        using sublist_order.order_trans by blast
    qed
  next
    case False
    obtain q qs where q: "split_str sep cs = q # qs"
      using split_str_not_Nil [of sep cs] by (cases "split_str sep cs") auto
    have pq: "prefix q cs" using q by (rule split_str_hd_prefix)
    from "2.prems" False q have "p = c # q \<or> p \<in> set qs" by auto
    then show ?thesis
    proof
      assume p: "p = c # q"
      from "2.IH"(2) [OF False "2.prems"(1), of q] q have nq: "\<not> sublist sep q" by simp
      have "\<not> prefix sep (c # q)"
      proof
        assume "prefix sep (c # q)"
        moreover from pq have "prefix (c # q) (c # cs)" by simp
        ultimately have "prefix sep (c # cs)" by (rule prefix_order.trans)
        with False show False by simp
      qed
      with nq p pq show ?thesis
        by (auto simp: sublist_Cons_right)
    next
      assume "p \<in> set qs"
      with "2.IH"(2) [OF False "2.prems"(1), of p] q show ?thesis
        by (auto simp: sublist_Cons_right)
    qed
  qed
qed

lemma split_join_lines:
  "lines \<noteq> [] \<Longrightarrow> \<forall>l \<in> set lines. NL \<notin> set l \<Longrightarrow> split_str [NL] (join_str [NL] lines) = lines"
proof (induction "[NL]" lines rule: join_str.induct)
  case 1
  then show ?case by simp
next
  case (2 x)
  then show ?case by (simp add: split_str_no_sep sublist_single)
next
  case (3 x y ys)
  then show ?case
    using split_str_first [of "[NL]" x "join_str [NL] (y # ys)"] by simp
qed


subsection \<open>Stripping\<close>

lemma strip_chars_sublist: "sublist (strip_chars chars s) s"
proof -
  have "sublist (dropWhile (\<lambda>c. c \<in> set chars) (rev (dropWhile (\<lambda>c. c \<in> set chars) s)))
          (rev (dropWhile (\<lambda>c. c \<in> set chars) s))"
    by simp
  then have "sublist (strip_chars chars s) (dropWhile (\<lambda>c. c \<in> set chars) s)"
    unfolding strip_chars_def by (simp add: sublist_rev_left)
  moreover have "sublist (dropWhile (\<lambda>c. c \<in> set chars) s) s"
    by simp
  ultimately show ?thesis
    using sublist_order.order_trans by blast
qed

lemma strip_chars_ends:
  "strip_chars chars s = [] \<or> (hd (strip_chars chars s) \<notin> set chars \<and> last (strip_chars chars s) \<notin> set chars)"
proof (cases "strip_chars chars s = []")
  case True
  then show ?thesis by simp
next
  case False
  define P where "P = (\<lambda>c. c \<in> set chars)"
  define u where "u = dropWhile P s"
  define v where "v = dropWhile P (rev u)"
  have r: "strip_chars chars s = rev v"
    by (simp add: strip_chars_def v_def u_def P_def)
  with False have v: "v \<noteq> []" by simp
  then have "\<not> P (hd v)"
    unfolding v_def by (rule hd_dropWhile)
  then have l: "\<not> P (last (rev v))"
    using v by (simp add: last_rev)
  have "rev u = takeWhile P (rev u) @ v"
    by (simp add: v_def)
  then have "u = rev v @ rev (takeWhile P (rev u))"
    by (metis rev_append rev_rev_ident)
  with v have hu: "hd u = hd (rev v)" and "u \<noteq> []"
    by (metis hd_append2 rev_is_Nil_conv, metis Nil_is_append_conv rev_is_Nil_conv)
  then have "\<not> P (hd u)"
    unfolding u_def using hd_dropWhile by metis
  with hu l r show ?thesis
    by (simp add: P_def)
qed

lemma dropWhile_rev_last: "xs \<noteq> [] \<Longrightarrow> \<not> P (last xs) \<Longrightarrow> dropWhile P (rev xs) = rev xs"
  by (cases xs rule: rev_cases) auto

lemma strip_chars_fixed:
  assumes "t = [] \<or> (hd t \<notin> set chars \<and> last t \<notin> set chars)"
  shows "strip_chars chars t = t"
proof (cases t)
  case Nil
  then show ?thesis by (simp add: strip_chars_def)
next
  case (Cons x xs)
  with assms have h: "x \<notin> set chars" and l: "last t \<notin> set chars" by auto
  from h Cons have d: "dropWhile (\<lambda>c. c \<in> set chars) t = t" by simp
  from Cons l have "dropWhile (\<lambda>c. c \<in> set chars) (rev t) = rev t"
    by (intro dropWhile_rev_last) simp_all
  with d show ?thesis by (simp add: strip_chars_def)
qed

lemma strip_chars_wrapped:
  assumes x: "x \<in> set chars" and z: "z \<in> set chars"
    and t: "t = [] \<or> (hd t \<notin> set chars \<and> last t \<notin> set chars)"
  shows "strip_chars chars (x # t @ [z]) = t"
proof (cases t)
  case Nil
  with x z show ?thesis by (simp add: strip_chars_def)
next
  case (Cons y ys)
  with t have h: "y \<notin> set chars" and l: "last t \<notin> set chars" by auto
  from x h Cons have d: "dropWhile (\<lambda>c. c \<in> set chars) (x # t @ [z]) = t @ [z]" by simp
  from Cons l have "dropWhile (\<lambda>c. c \<in> set chars) (rev t) = rev t"
    by (intro dropWhile_rev_last) simp_all
  with z have "dropWhile (\<lambda>c. c \<in> set chars) (rev (t @ [z])) = rev t" by simp
  with d show ?thesis by (simp add: strip_chars_def)
qed

lemma strip_chars_eq_self:
  "strip_chars chars t = t \<longleftrightarrow> t = [] \<or> (hd t \<notin> set chars \<and> last t \<notin> set chars)"
  using strip_chars_ends [of chars t] strip_chars_fixed [of t chars] by auto

subsection \<open>Decimal digits\<close>

lemma str_nat_digits: "set (str_nat n) \<subseteq> {48..57}"
proof (induction n rule: str_nat.induct)
  case (1 n)
  show ?case
  proof (cases "n < 10")
    case True
    then show ?thesis by (subst str_nat.simps) auto
  next
    case False
    have "n mod 10 < 10" by simp
    with 1 [OF False] False show ?thesis
      by (subst str_nat.simps) auto
  qed
qed

lemma str_nat_free: "c < 48 \<or> 57 < c \<Longrightarrow> c \<notin> set (str_nat n)"
  using str_nat_digits [of n] by auto


subsection \<open>Parsing one line\<close>

lemma parse_line_outline_line:
  assumes c: "clean_title t"
  shows "parse_line (outline_line n t r) = Inr (Some t)"
proof -
  define sepA :: pystr where "sepA = [32, 45, 32]"
  define sepB :: pystr where "sepB = [58, 32]"
  define hd0 where "hd0 = py ''Slide '' @ str_nat n"
  define a0 where "a0 = hd0 @ sepB @ 91 # t"
  from c have tA: "\<not> sublist sepA t" and tB: "\<not> sublist sepB t"
    and ts: "strip_chars [91, 93] t = t"
    by (simp_all add: clean_title_def py_def sepA_def sepB_def)
  have line: "outline_line n t r = a0 @ 93 # sepA @ r"
    by (simp add: outline_line_def py_def a0_def hd0_def sepA_def sepB_def)
  have d45: "45 \<notin> set (hd0 @ sepB)" and d58: "58 \<notin> set hd0"
    by (simp_all add: hd0_def sepB_def py_def str_nat_free)
  have "\<not> sublist sepA (hd0 @ sepB)"
  proof
    assume "sublist sepA (hd0 @ sepB)"
    then have "set sepA \<subseteq> set (hd0 @ sepB)" by (rule set_mono_sublist)
    with d45 show False by (auto simp: sepA_def)
  qed
  with tA have nA: "\<not> sublist sepA a0"
    using sublist_across_foreign [of 91 sepA "hd0 @ sepB" t]
    by (auto simp: a0_def sepA_def)
  have s1: "split_str sepA (outline_line n t r) = (a0 @ [93]) # split_str sepA r"
    unfolding line using nA by (intro split_str_first_guarded) (simp_all add: sepA_def)
  obtain q qs where q: "split_str sepA r = q # qs"
    using split_str_not_Nil [of sepA r] by (cases "split_str sepA r") auto
  have nB: "\<not> sublist sepB (91 # t @ [93])"
  proof
    assume "sublist sepB (91 # t @ [93])"
    then have "sublist sepB ([] @ 91 # (t @ [93]))" by simp
    then have "sublist sepB [] \<or> sublist sepB (t @ [93])"
      by (intro sublist_across_foreign [of 91]) (simp_all add: sepB_def)
    then have "sublist sepB (t @ 93 # [])" by (simp add: sepB_def)
    then have "sublist sepB t \<or> sublist sepB []"
      by (intro sublist_across_foreign [of 93]) (simp_all add: sepB_def)
    with tB show False by (simp add: sepB_def)
  qed
  have e1: "split_str sepB (hd0 @ sepB @ (91 # t @ [93])) = hd0 # split_str sepB (91 # t @ [93])"
    using d58 by (intro split_str_first) (simp_all add: sepB_def)
  have e2: "a0 @ [93] = hd0 @ sepB @ (91 # t @ [93])"
    by (simp add: a0_def)
  have e3: "split_str sepB (91 # t @ [93]) = [91 # t @ [93]]"
    using nB by (rule split_str_no_sep)
  have s2: "split_str sepB (a0 @ [93]) = [hd0, 91 # t @ [93]]"
    unfolding e2 e1 e3 by (rule refl)
  have s3: "strip_chars [91, 93] (91 # t @ [93]) = t"
    using ts by (intro strip_chars_wrapped) (simp_all add: strip_chars_eq_self)
  have p: "prefix (py ''Slide'') (outline_line n t r)"
    by (simp add: outline_line_def py_def)
  have "py '' - '' = sepA" "py '': '' = sepB" "py ''[]'' = [91, 93]"
    by (simp_all add: py_def sepA_def sepB_def)
  with p s1 q s2 s3 show ?thesis
    by (simp add: parse_line_def)
qed

lemma parse_line_clean:
  assumes "parse_line l = Inr (Some t)" and nl: "NL \<notin> set l"
  shows "clean_title t"
proof -
  from assms(1) obtain part0 x xs y seg ys where
    a: "split_str (py '' - '') l = part0 # x # xs"
    and b: "split_str (py '': '') part0 = y # seg # ys"
    and t: "t = strip_chars (py ''[]'') seg"
    by (auto simp: parse_line_def split: if_splits list.splits)
  have "part0 \<in> set (split_str (py '' - '') l)" using a by simp
  then have pA: "\<not> sublist (py '' - '') part0" and pl: "sublist part0 l"
    using split_str_parts [of "py '' - ''" part0 l] by (simp_all add: py_def)
  have "seg \<in> set (split_str (py '': '') part0)" using b by simp
  then have sB: "\<not> sublist (py '': '') seg" and sp: "sublist seg part0"
    using split_str_parts [of "py '': ''" seg part0] by (simp_all add: py_def)
  have tseg: "sublist t seg" unfolding t by (rule strip_chars_sublist)
  from tseg sp have tp: "sublist t part0" using sublist_order.order_trans by blast
  with pl have tl: "sublist t l" using sublist_order.order_trans by blast
  have "\<not> sublist (py '' - '') t"
    using pA tp sublist_order.order_trans by blast
  moreover have "\<not> sublist (py '': '') t"
    using sB tseg sublist_order.order_trans by blast
  moreover have "NL \<notin> set t"
    using nl set_mono_sublist [OF tl] by auto
  moreover have "strip_chars (py ''[]'') t = t"
    unfolding t using strip_chars_ends [of "py ''[]''" seg] by (simp add: strip_chars_eq_self)
  ultimately show ?thesis by (simp add: clean_title_def)
qed

subsection \<open>Parsing an outline\<close>

lemma parse_lines_clean:
  "parse_lines ls acc = Inr ts \<Longrightarrow> \<forall>l \<in> set ls. NL \<notin> set l \<Longrightarrow>
   \<forall>t \<in> set acc. clean_title t \<Longrightarrow> \<forall>t \<in> set ts. clean_title t"
proof (induction ls arbitrary: acc)
  case Nil
  then show ?case by simp
next
  case (Cons l ls)
  show ?case
  proof (cases "parse_line l")
    case (Inl e)
    with Cons.prems show ?thesis by simp
  next
    case (Inr res)
    show ?thesis
    proof (cases res)
      case None
      with Inr Cons show ?thesis by simp
    next
      case (Some t)
      with Inr Cons.prems have "clean_title t"
        by (intro parse_line_clean [of l t]) simp_all
      with Cons.prems have "\<forall>t \<in> set (acc @ [t]). clean_title t" by simp
      with Cons.IH [of "acc @ [t]"] Cons.prems Inr Some show ?thesis by simp
    qed
  qed
qed

lemma split_str_lines_no_NL: "l \<in> set (split_str [NL] s) \<Longrightarrow> NL \<notin> set l"
  using split_str_parts [of "[NL]" l s] by (simp add: sublist_single)

lemma parse_outline_clean: "parse_outline s = Inr ts \<Longrightarrow> \<forall>t \<in> set ts. clean_title t"
  unfolding parse_outline_def
  using parse_lines_clean [of "split_str [NL] s" "[]" ts] split_str_lines_no_NL [of _ s]
  by auto

lemma outline_line_no_NL:
  "NL \<notin> set t \<Longrightarrow> NL \<notin> set r \<Longrightarrow> NL \<notin> set (outline_line n t r)"
  by (simp add: outline_line_def py_def NL_def str_nat_free)

lemma parse_lines_outline_lines:
  "\<forall>t \<in> set ts. clean_title t \<Longrightarrow>
   parse_lines (map (\<lambda>(i, title). outline_line (Suc i) title (rest i)) (enumerate k ts)) acc
     = Inr (acc @ ts)"
  by (induction ts arbitrary: k acc) (simp_all add: parse_line_outline_line)

lemma parse_reserialize:
  assumes c: "\<forall>t \<in> set ts. clean_title t" and r: "\<forall>i. NL \<notin> set (rest i)"
  shows "parse_outline (reserialize rest ts) = Inr ts"
proof (cases ts)
  case Nil
  then show ?thesis
    by (simp add: parse_outline_def reserialize_def parse_line_def py_def)
next
  case (Cons t ts')
  define lines where "lines = map (\<lambda>(i, title). outline_line (Suc i) title (rest i)) (enumerate 0 ts)"
  from Cons have ne: "lines \<noteq> []" by (simp add: lines_def)
  have "\<forall>l \<in> set lines. NL \<notin> set l"
  proof
    fix l assume "l \<in> set lines"
    then obtain i t where "l = outline_line (Suc i) t (rest i)" and "t \<in> set ts"
      by (auto simp: lines_def in_set_enumerate_eq)
    with c r show "NL \<notin> set l"
      by (simp add: outline_line_no_NL clean_title_def)
  qed
  with ne have "split_str [NL] (join_str [NL] lines) = lines"
    by (rule split_join_lines)
  then have "parse_outline (reserialize rest ts) = parse_lines lines []"
    by (simp add: parse_outline_def reserialize_def lines_def)
  also have "\<dots> = Inr ts"
    unfolding lines_def using parse_lines_outline_lines [OF c, of rest 0 "[]"] by simp
  finally show ?thesis .
qed

text \<open>
  Claim C9. When parsing an outline returns a sequence of titles, writing these titles
  back as lines \<open>Slide <n>: [<title>] - <rest>\<close>, with any descriptive texts that
  hold no line break, and parsing the result returns the same sequence of titles.
\<close>

theorem parse_outline_idempotent:
  "parse_outline slide_structure = Inr titles \<Longrightarrow> \<forall>i. NL \<notin> set (rest i) \<Longrightarrow>
   parse_outline (reserialize rest titles) = Inr titles"
  using parse_outline_clean [of slide_structure titles] parse_reserialize [of titles rest]
  by blast


theorem parse_outline_idempotent_witness:
  "parse_outline five_entry_outline =
     Inr [py ''Title Slide'', py ''Introduction'', py ''Key Finding 1'', py ''Key Finding 2'',
          py ''Conclusion'']
   \<and> parse_outline (reserialize (const_rest (py ''details''))
         [py ''Title Slide'', py ''Introduction'', py ''Key Finding 1'', py ''Key Finding 2'',
          py ''Conclusion''])
     = Inr [py ''Title Slide'', py ''Introduction'', py ''Key Finding 1'', py ''Key Finding 2'',
          py ''Conclusion'']"
proof -
  have "\<forall>i. NL \<notin> set (const_rest (py ''details'') i)"
    by (simp add: const_rest_def py_def NL_def)
  with parse_five_entry_outline show ?thesis
    using parse_outline_idempotent [of five_entry_outline _ "const_rest (py ''details'')"]
    by simp
qed

lemma clean_title_Topic: "clean_title (py ''Topic'')"
  by (simp add: clean_title_def py_def NL_def strip_chars_def sublist_Cons_right)

lemma parse_topics:
  "parse_outline (reserialize (const_rest []) (replicate n (py ''Topic''))) = Inr (replicate n (py ''Topic''))"
  by (intro parse_reserialize) (simp_all add: clean_title_Topic const_rest_def)

lemma emitted_topics: "length (emitted (replicate n (py ''Topic''))) = min n MAX_SLIDES"
proof -
  have t: "\<not> sublist (py ''[Title Slide]'') (py ''Topic'')"
    by (simp add: py_def sublist_Cons_right)
  have "\<forall>x \<in> set (enumerate 0 (take MAX_SLIDES (replicate n (py ''Topic'')))).
          (\<lambda>(k, slide_title). \<not> sublist (py ''[Title Slide]'') slide_title) x"
    using t by (auto simp: in_set_enumerate_eq)
  then have "emitted (replicate n (py ''Topic'')) = enumerate 0 (take MAX_SLIDES (replicate n (py ''Topic'')))"
    unfolding emitted_def by (rule filter_True)
  then show ?thesis by (simp add: min.commute)
qed

text \<open>
  Claim C7. Whatever the outline, the service and the library do, the saved
  presentation has at most \<open>MAX_SLIDES\<close> content slides, next to the title slide.
  Parsing applies no cap: an outline of \<open>n\<close> well-formed lines parses to \<open>n\<close>
  titles for every \<open>n\<close>, and assembling it without faults gives the smaller of
  \<open>n\<close> and \<open>MAX_SLIDES\<close> content slides.
\<close>

theorem content_slides_capped:
  "content_slide_count
      (create_presentation model flt st now tmp_name ppt_title slide_structure pdf_text) \<le> MAX_SLIDES
   \<and> parse_outline (reserialize (const_rest []) (replicate n (py ''Topic'')))
       = Inr (replicate n (py ''Topic''))
   \<and> content_slide_count
        (create_presentation model no_faults st now tmp_name ppt_title
           (reserialize (const_rest []) (replicate n (py ''Topic''))) pdf_text) = min n MAX_SLIDES"
proof -
  have "content_slide_count
      (create_presentation model flt st now tmp_name ppt_title slide_structure pdf_text) \<le> MAX_SLIDES"
    using emitted_length by (simp add: content_slide_count_eq split: sum.splits)
  moreover have "content_slide_count
        (create_presentation model no_faults st now tmp_name ppt_title
           (reserialize (const_rest []) (replicate n (py ''Topic''))) pdf_text) = min n MAX_SLIDES"
    by (simp add: content_slide_count_eq parse_topics emitted_topics no_faults_def)
  ultimately show ?thesis
    using parse_topics by simp
qed

end
